theory Spec2Isabelle
  imports Complex_Main "HOL-Library.Product_Lexorder"
begin

section \<open>Values and tensors\<close>

text \<open>
  The layer of \<^verbatim>\<open>pytorch_tabular/models/node/odst.py\<close> computes on float32 tensors.
  The model keeps the special values of the floats and idealises the rest: a value is a
  real number, an infinity or not-a-number, and arithmetic on the finite values is exact.
  The special values follow IEEE 754: not-a-number absorbs, \<open>inf - inf\<close> and \<open>0 * inf\<close>
  are not-a-number. The rounding of float32 and its overflow to an infinity are not
  modelled, so the finite numbers that the model computes are not those of the code. The
  theorems below do not rest on them: they are about the shapes of the tensors, the errors
  raised, the attributes assigned, the table of binary codes (whose entries 0 and 1 are
  exact in float32), and entries that the code multiplies by one and adds to zero.
\<close>

datatype fl = Fin real | PInf | NInf | NaN

datatype error = AssertionError | RuntimeError | ValueError | IndexError

fun fneg :: "fl \<Rightarrow> fl" where
  "fneg (Fin a) = Fin (- a)"
| "fneg PInf = NInf"
| "fneg NInf = PInf"
| "fneg NaN = NaN"

fun fadd :: "fl \<Rightarrow> fl \<Rightarrow> fl" where
  "fadd (Fin a) (Fin b) = Fin (a + b)"
| "fadd NaN v = NaN"
| "fadd v NaN = NaN"
| "fadd PInf NInf = NaN"
| "fadd NInf PInf = NaN"
| "fadd PInf v = PInf"
| "fadd v PInf = PInf"
| "fadd NInf v = NInf"
| "fadd v NInf = NInf"

definition fsub :: "fl \<Rightarrow> fl \<Rightarrow> fl" where
  "fsub a b = fadd a (fneg b)"

definition inf_of_sign :: "bool \<Rightarrow> fl" where
  "inf_of_sign positive = (if positive then PInf else NInf)"

fun fmul :: "fl \<Rightarrow> fl \<Rightarrow> fl" where
  "fmul (Fin a) (Fin b) = Fin (a * b)"
| "fmul NaN v = NaN"
| "fmul v NaN = NaN"
| "fmul (Fin a) PInf = (if a = 0 then NaN else inf_of_sign (0 < a))"
| "fmul (Fin a) NInf = (if a = 0 then NaN else inf_of_sign (a < 0))"
| "fmul PInf (Fin b) = (if b = 0 then NaN else inf_of_sign (0 < b))"
| "fmul NInf (Fin b) = (if b = 0 then NaN else inf_of_sign (b < 0))"
| "fmul PInf PInf = PInf"
| "fmul NInf NInf = PInf"
| "fmul PInf NInf = NInf"
| "fmul NInf PInf = NInf"

fun fabs :: "fl \<Rightarrow> fl" where
  "fabs (Fin a) = Fin \<bar>a\<bar>"
| "fabs PInf = PInf"
| "fabs NInf = PInf"
| "fabs NaN = NaN"

text \<open>\<^verbatim>\<open>torch.exp\<close> and \<^verbatim>\<open>torch.log\<close>: the logarithm of zero is \<open>-inf\<close>, that of a
  negative number is not-a-number.\<close>

fun fexp :: "fl \<Rightarrow> fl" where
  "fexp (Fin a) = Fin (exp a)"
| "fexp PInf = PInf"
| "fexp NInf = Fin 0"
| "fexp NaN = NaN"

fun flog :: "fl \<Rightarrow> fl" where
  "flog (Fin a) = (if 0 < a then Fin (ln a) else if a = 0 then NInf else NaN)"
| "flog PInf = PInf"
| "flog NInf = NaN"
| "flog NaN = NaN"

text \<open>Division of a value by a positive Python float (\<^verbatim>\<open>temperatures /= max(1.0, c)\<close>).\<close>

fun fdiv_pos :: "fl \<Rightarrow> real \<Rightarrow> fl" where
  "fdiv_pos (Fin a) c = Fin (a / c)"
| "fdiv_pos v c = v"

primrec fsum :: "fl list \<Rightarrow> fl" where
  "fsum [] = Fin 0"
| "fsum (x # xs) = fadd x (fsum xs)"

primrec fprod :: "fl list \<Rightarrow> fl" where
  "fprod [] = Fin 1"
| "fprod (x # xs) = fmul x (fprod xs)"

text \<open>The order in which numpy sorts floats: not-a-number comes last.\<close>

fun fl_key :: "fl \<Rightarrow> nat \<times> real" where
  "fl_key NInf = (0, 0)"
| "fl_key (Fin a) = (1, a)"
| "fl_key PInf = (2, 0)"
| "fl_key NaN = (3, 0)"

text \<open>
  A tensor is its shape and its entries in row-major order. \<open>indices\<close> lists the index
  vectors of a shape in that order and \<open>offset\<close> is the position of an index vector in it.
  The order of the entries in memory is not part of a tensor; an input of the layer is taken
  to be contiguous, and the one place where the layer views a tensor that is not is treated
  in \<^verbatim>\<open>forward\<close> below.
\<close>

record 'a tensor =
  shape :: "nat list"
  data :: "'a list"

definition numel :: "nat list \<Rightarrow> nat" where
  "numel sh = prod_list sh"

definition indices :: "nat list \<Rightarrow> nat list list" where
  "indices sh = product_lists (map (\<lambda>n. [0..<n]) sh)"

fun offset :: "nat list \<Rightarrow> nat list \<Rightarrow> nat" where
  "offset (n # ns) (i # is) = i * prod_list ns + offset ns is"
| "offset ns is = 0"

definition valid_index :: "nat list \<Rightarrow> nat list \<Rightarrow> bool" where
  "valid_index sh ix = list_all2 (\<lambda>i n. i < n) ix sh"

definition tabulate :: "nat list \<Rightarrow> (nat list \<Rightarrow> 'a) \<Rightarrow> 'a tensor" where
  "tabulate sh f = \<lparr>shape = sh, data = map f (indices sh)\<rparr>"

definition entry :: "'a tensor \<Rightarrow> nat list \<Rightarrow> 'a" where
  "entry t ix = data t ! offset (shape t) ix"

definition map_tensor :: "('a \<Rightarrow> 'b) \<Rightarrow> 'a tensor \<Rightarrow> 'b tensor" where
  "map_tensor f t = \<lparr>shape = shape t, data = map f (data t)\<rparr>"

definition well_shaped :: "'a tensor \<Rightarrow> bool" where
  "well_shaped t = (length (data t) = numel (shape t))"


section \<open>Tensor operations\<close>

text \<open>
  \<^verbatim>\<open>Tensor.view\<close> of a contiguous tensor, with at most one inferred size, written \<open>-1\<close>:
  the inferred size is the number of entries divided by the product of the other sizes,
  and torch refuses to infer it when that product is zero.
\<close>

definition infer_size :: "int list \<Rightarrow> nat \<Rightarrow> error + nat list" where
  "infer_size sizes n =
     (if list_ex (\<lambda>s. s < - 1) sizes \<or> 1 < length (filter (\<lambda>s. s = - 1) sizes)
      then Inl RuntimeError
      else let newsize = prod_list (map nat (filter (\<lambda>s. s \<noteq> - 1) sizes)) in
        if list_ex (\<lambda>s. s = - 1) sizes
        then (if 0 < newsize \<and> n mod newsize = 0
              then Inr (map (\<lambda>s. if s = - 1 then n div newsize else nat s) sizes)
              else Inl RuntimeError)
        else (if n = newsize then Inr (map nat sizes) else Inl RuntimeError))"

definition view :: "'a tensor \<Rightarrow> int list \<Rightarrow> error + 'a tensor" where
  "view t sizes =
     (case infer_size sizes (numel (shape t)) of
        Inl e \<Rightarrow> Inl e
      | Inr sh \<Rightarrow> Inr (t\<lparr>shape := sh\<rparr>))"

text \<open>\<^verbatim>\<open>flatten(1, 2)\<close> merges the second and third dimension; \<^verbatim>\<open>t()\<close> transposes a
  matrix.\<close>

definition flatten_1_2 :: "'a tensor \<Rightarrow> error + 'a tensor" where
  "flatten_1_2 t =
     (case shape t of
        b # n # c # rest \<Rightarrow> Inr (t\<lparr>shape := b # n * c # rest\<rparr>)
      | _ \<Rightarrow> Inl IndexError)"

definition transpose_2d :: "'a tensor \<Rightarrow> error + 'a tensor" where
  "transpose_2d t =
     (if length (shape t) = 2
      then Inr (tabulate [shape t ! 1, shape t ! 0] (\<lambda>ix. entry t [ix ! 1, ix ! 0]))
      else if length (shape t) < 2 then Inr t else Inl RuntimeError)"

text \<open>The rows of a matrix, as iterating over a 2-dimensional numpy array gives them.\<close>

definition rows :: "'a tensor \<Rightarrow> 'a list list" where
  "rows t = map (\<lambda>i. map (\<lambda>j. entry t [i, j]) [0..<shape t ! 1]) [0..<shape t ! 0]"

text \<open>\<^verbatim>\<open>torch.stack([a, b], dim=-1)\<close>; both uses in the layer stack two tensors of one
  shape.\<close>

definition stack_last :: "'a tensor \<Rightarrow> 'a tensor \<Rightarrow> 'a tensor" where
  "stack_last a b =
     tabulate (shape a @ [2])
       (\<lambda>ix. if last ix = 0 then entry a (butlast ix) else entry b (butlast ix))"

text \<open>
  Broadcasting of an elementwise operation: the shapes are aligned at their last
  dimension, and a dimension of size 1 is repeated.
\<close>

fun broadcast_rev :: "nat list \<Rightarrow> nat list \<Rightarrow> nat list option" where
  "broadcast_rev [] ys = Some ys"
| "broadcast_rev xs [] = Some xs"
| "broadcast_rev (x # xs) (y # ys) =
     (if x = y \<or> x = 1 \<or> y = 1
      then map_option ((#) (if x = 1 then y else x)) (broadcast_rev xs ys)
      else None)"

definition broadcast_shapes :: "nat list \<Rightarrow> nat list \<Rightarrow> error + nat list" where
  "broadcast_shapes s1 s2 =
     (case broadcast_rev (rev s1) (rev s2) of
        None \<Rightarrow> Inl RuntimeError
      | Some r \<Rightarrow> Inr (rev r))"

definition bidx :: "nat \<Rightarrow> nat \<Rightarrow> nat" where
  "bidx n i = (if n = 1 then 0 else i)"

definition bindex :: "nat list \<Rightarrow> nat list \<Rightarrow> nat list" where
  "bindex sh ix = map2 bidx sh (drop (length ix - length sh) ix)"

definition binop :: "('a \<Rightarrow> 'b \<Rightarrow> 'c) \<Rightarrow> 'a tensor \<Rightarrow> 'b tensor \<Rightarrow> error + 'c tensor" where
  "binop f a b =
     (case broadcast_shapes (shape a) (shape b) of
        Inl e \<Rightarrow> Inl e
      | Inr sh \<Rightarrow>
          Inr (tabulate sh (\<lambda>ix. f (entry a (bindex (shape a) ix)) (entry b (bindex (shape b) ix)))))"

text \<open>\<^verbatim>\<open>target.data[...] = v\<close> overwrites every entry of the target with the value
  broadcast to the target's shape (a value of at most the target's rank).\<close>

definition assign_all :: "'a tensor \<Rightarrow> 'a tensor \<Rightarrow> error + 'a tensor" where
  "assign_all target v =
     (if broadcast_shapes (shape target) (shape v) = Inr (shape target)
      then Inr (tabulate (shape target) (\<lambda>ix. entry v (bindex (shape v) ix)))
      else Inl RuntimeError)"

text \<open>
  The three \<^verbatim>\<open>torch.einsum\<close> contractions of the layer. A subscript that two operands
  share must have one size in both, or size 1 in one of them, which is then repeated.
\<close>

definition einsum_dim :: "nat \<Rightarrow> nat \<Rightarrow> error + nat" where
  "einsum_dim a b =
     (if a = b \<or> b = 1 then Inr a else if a = 1 then Inr b else Inl RuntimeError)"

definition einsum_bi_ind_bnd :: "fl tensor \<Rightarrow> fl tensor \<Rightarrow> error + fl tensor" where
  "einsum_bi_ind_bnd x s =
     (if length (shape x) \<noteq> 2 \<or> length (shape s) \<noteq> 3 then Inl RuntimeError
      else case einsum_dim (shape x ! 1) (shape s ! 0) of
        Inl e \<Rightarrow> Inl e
      | Inr I \<Rightarrow>
          Inr (tabulate [shape x ! 0, shape s ! 1, shape s ! 2]
            (\<lambda>ix. fsum (map (\<lambda>i. fmul (entry x [ix ! 0, bidx (shape x ! 1) i])
                                       (entry s [bidx (shape s ! 0) i, ix ! 1, ix ! 2]))
                          [0..<I]))))"

definition einsum_btds_dcs_btdc :: "fl tensor \<Rightarrow> fl tensor \<Rightarrow> error + fl tensor" where
  "einsum_btds_dcs_btdc x y =
     (if length (shape x) \<noteq> 4 \<or> length (shape y) \<noteq> 3 then Inl RuntimeError
      else case einsum_dim (shape x ! 2) (shape y ! 0) of
        Inl e \<Rightarrow> Inl e
      | Inr D \<Rightarrow>
         (case einsum_dim (shape x ! 3) (shape y ! 2) of
            Inl e \<Rightarrow> Inl e
          | Inr S \<Rightarrow>
              Inr (tabulate [shape x ! 0, shape x ! 1, D, shape y ! 1]
                (\<lambda>ix. fsum (map (\<lambda>s. fmul
                    (entry x [ix ! 0, ix ! 1, bidx (shape x ! 2) (ix ! 2), bidx (shape x ! 3) s])
                    (entry y [bidx (shape y ! 0) (ix ! 2), ix ! 3, bidx (shape y ! 2) s]))
                  [0..<S])))))"

definition einsum_bnd_ncd_bnc :: "fl tensor \<Rightarrow> fl tensor \<Rightarrow> error + fl tensor" where
  "einsum_bnd_ncd_bnc x y =
     (if length (shape x) \<noteq> 3 \<or> length (shape y) \<noteq> 3 then Inl RuntimeError
      else case einsum_dim (shape x ! 1) (shape y ! 0) of
        Inl e \<Rightarrow> Inl e
      | Inr N \<Rightarrow>
         (case einsum_dim (shape x ! 2) (shape y ! 2) of
            Inl e \<Rightarrow> Inl e
          | Inr D \<Rightarrow>
              Inr (tabulate [shape x ! 0, N, shape y ! 1]
                (\<lambda>ix. fsum (map (\<lambda>d. fmul
                    (entry x [ix ! 0, bidx (shape x ! 1) (ix ! 1), bidx (shape x ! 2) d])
                    (entry y [bidx (shape y ! 0) (ix ! 1), ix ! 2, bidx (shape y ! 2) d]))
                  [0..<D])))))"

text \<open>\<^verbatim>\<open>torch.prod(t, dim=-2)\<close>: the product over the last dimension but one.\<close>

definition prod_dim_m2 :: "fl tensor \<Rightarrow> error + fl tensor" where
  "prod_dim_m2 t =
     (let sh = shape t; r = length sh in
      if r < 2 then Inl IndexError
      else Inr (tabulate (take (r - 2) sh @ [last sh])
             (\<lambda>ix. fprod (map (\<lambda>d. entry t (butlast ix @ [d, last ix])) [0..<sh ! (r - 2)]))))"

text \<open>
  \<^verbatim>\<open>np.percentile\<close> with numpy's default linear interpolation: the data are sorted, the
  percentile \<open>q\<close> falls at the position \<open>q / 100 * (n - 1)\<close>, and the value there is
  interpolated between its two neighbours \<open>a\<close> and \<open>b\<close>, as \<open>a + (b - a) * t\<close> in the
  lower half of the interval and as \<open>b - (b - a) * (1 - t)\<close> in the upper half. A
  percentile outside \<open>[0, 100]\<close> is refused with a \<^verbatim>\<open>ValueError\<close>, empty data with an
  \<^verbatim>\<open>IndexError\<close>; data that hold not-a-number give not-a-number.
\<close>

definition lerp :: "fl \<Rightarrow> fl \<Rightarrow> real \<Rightarrow> fl" where
  "lerp a b t =
     (let diff_b_a = fsub b a in
      if 1 / 2 \<le> t then fsub b (fmul diff_b_a (Fin (1 - t)))
      else fadd a (fmul diff_b_a (Fin t)))"

definition percentile_value :: "fl list \<Rightarrow> real \<Rightarrow> fl" where
  "percentile_value a q =
     (if list_ex (\<lambda>v. v = NaN) a then NaN
      else let n = length a;
               srt = sort_key fl_key a;
               pos = q / 100 * real (n - 1);
               lo = nat \<lfloor>pos\<rfloor>;
               hi = min (lo + 1) (n - 1)
           in lerp (srt ! lo) (srt ! hi) (pos - real lo))"

definition np_percentile :: "fl list \<Rightarrow> real \<Rightarrow> error + fl" where
  "np_percentile a q =
     (if q < 0 \<or> 100 < q then Inl ValueError
      else if a = [] then Inl IndexError
      else Inr (percentile_value a q))"

definition np_percentile_axis0 :: "fl tensor \<Rightarrow> real \<Rightarrow> error + fl tensor" where
  "np_percentile_axis0 a q =
     (if q < 0 \<or> 100 < q \<or> shape a = [] then Inl ValueError
      else if hd (shape a) = 0 then Inl IndexError
      else Inr (tabulate (tl (shape a))
             (\<lambda>ix. percentile_value (map (\<lambda>b. entry a (b # ix)) [0..<hd (shape a)]) q)))"

fun sequence :: "(error + 'a) list \<Rightarrow> error + 'a list" where
  "sequence [] = Inr []"
| "sequence (Inl e # rs) = Inl e"
| "sequence (Inr v # rs) = (case sequence rs of Inl e \<Rightarrow> Inl e | Inr vs \<Rightarrow> Inr (v # vs))"

section \<open>The layer\<close>

text \<open>
  The attributes of an \<^verbatim>\<open>ODST\<close> instance. \<^verbatim>\<open>choice_function\<close> and
  \<^verbatim>\<open>bin_function\<close> are callables given to the constructor; their defaults
  \<^verbatim>\<open>sparsemax\<close> and \<^verbatim>\<open>sparsemoid\<close> come from the module \<^verbatim>\<open>utils\<close>.
\<close>

record ODST =
  depth :: nat
  num_trees :: nat
  tree_dim :: nat
  flatten_output :: bool
  choice_function :: "fl tensor \<Rightarrow> nat \<Rightarrow> fl tensor"
  bin_function :: "fl tensor \<Rightarrow> fl tensor"
  threshold_init_beta :: real
  threshold_init_cutoff :: real
  response :: "fl tensor"
  feature_selection_logits :: "fl tensor"
  feature_thresholds :: "fl tensor"
  log_temperatures :: "fl tensor"
  bin_codes_1hot :: "fl tensor"

text \<open>
  The binary codes of the constructor: \<^verbatim>\<open>indices.view(1, -1) // offsets.view(-1, 1) % 2\<close>
  is the matrix of the bits of the leaf indices, one row for each level, and
  \<^verbatim>\<open>torch.stack([bin_codes, 1.0 - bin_codes], dim=-1)\<close> pairs each bit with its complement.
\<close>

definition bin_codes :: "nat \<Rightarrow> fl tensor" where
  "bin_codes d =
     (let leaf_indices = [0..<2 ^ d];
          offsets = map (\<lambda>l. 2 ^ l) [0..<d]
      in tabulate [d, 2 ^ d]
           (\<lambda>ix. Fin (real ((leaf_indices ! (ix ! 1)) div (offsets ! (ix ! 0)) mod 2))))"

definition bin_codes_table :: "nat \<Rightarrow> fl tensor" where
  "bin_codes_table d = stack_last (bin_codes d) (map_tensor (\<lambda>v. fsub (Fin 1) v) (bin_codes d))"

text \<open>
  The constructor. An in-place initialiser overwrites the entries of a parameter and
  leaves its shape, so it is given by the value it writes at each index. The thresholds
  and the log-temperatures start as not-a-number.
\<close>

definition ODST_init ::
  "nat \<Rightarrow> nat \<Rightarrow> nat \<Rightarrow> nat \<Rightarrow> bool \<Rightarrow> (fl tensor \<Rightarrow> nat \<Rightarrow> fl tensor) \<Rightarrow> (fl tensor \<Rightarrow> fl tensor)
     \<Rightarrow> (nat list \<Rightarrow> fl) \<Rightarrow> (nat list \<Rightarrow> fl) \<Rightarrow> real \<Rightarrow> real \<Rightarrow> ODST" where
  "ODST_init in_features n_trees dep tree_output_dim flatten choice bin
       initialize_response initialize_selection_logits init_beta init_cutoff =
     \<lparr>depth = dep, num_trees = n_trees, tree_dim = tree_output_dim, flatten_output = flatten,
      choice_function = choice, bin_function = bin,
      threshold_init_beta = init_beta, threshold_init_cutoff = init_cutoff,
      response = tabulate [n_trees, tree_output_dim, 2 ^ dep] initialize_response,
      feature_selection_logits = tabulate [in_features, n_trees, dep] initialize_selection_logits,
      feature_thresholds = tabulate [n_trees, dep] (\<lambda>ix. NaN),
      log_temperatures = tabulate [n_trees, dep] (\<lambda>ix. NaN),
      bin_codes_1hot = bin_codes_table dep\<rparr>"

section \<open>The forward pass\<close>

text \<open>
  The soft-selected feature values, computed alike by \<^verbatim>\<open>forward\<close> and
  \<^verbatim>\<open>initialize\<close> from a 2-dimensional input.
\<close>

definition feature_values :: "ODST \<Rightarrow> fl tensor \<Rightarrow> error + fl tensor" where
  "feature_values L input =
     (let feature_logits = feature_selection_logits L;
          feature_selectors = choice_function L feature_logits 0
      in einsum_bi_ind_bnd input feature_selectors)"

text \<open>The leaf weights of \<^verbatim>\<open>forward\<close>, from the feature values to \<^verbatim>\<open>torch.prod\<close>.\<close>

definition response_weights :: "ODST \<Rightarrow> fl tensor \<Rightarrow> error + fl tensor" where
  "response_weights L input =
     (case feature_values L input of Inl e \<Rightarrow> Inl e | Inr fv \<Rightarrow>
      case binop fsub fv (feature_thresholds L) of Inl e \<Rightarrow> Inl e | Inr diff \<Rightarrow>
      case binop fmul diff (map_tensor fexp (map_tensor fneg (log_temperatures L))) of
        Inl e \<Rightarrow> Inl e | Inr threshold_logits \<Rightarrow>
      let threshold_logits2 = stack_last (map_tensor fneg threshold_logits) threshold_logits;
          bins = bin_function L threshold_logits2
      in case einsum_btds_dcs_btdc bins (bin_codes_1hot L) of Inl e \<Rightarrow> Inl e | Inr bin_matches \<Rightarrow>
         prod_dim_m2 bin_matches)"

definition forward_2d :: "ODST \<Rightarrow> fl tensor \<Rightarrow> error + fl tensor" where
  "forward_2d L input =
     (case response_weights L input of Inl e \<Rightarrow> Inl e | Inr weights \<Rightarrow>
      case einsum_bnd_ncd_bnc weights (response L) of Inl e \<Rightarrow> Inl e | Inr resp \<Rightarrow>
      if flatten_output L then flatten_1_2 resp else Inr resp)"

text \<open>
  The result of \<^verbatim>\<open>forward\<close> on two dimensions is not always contiguous. With
  \<^verbatim>\<open>flatten_output\<close> it is the result of \<^verbatim>\<open>flatten(1, 2)\<close>, which copies where it must,
  and the leading dimension of that can be split by a view. Without, it is the tensor
  that \<^verbatim>\<open>torch.einsum("bnd,ncd->bnc", ...)\<close> returns: torch computes it as a batched matrix
  product with the trees as the batch, so it has the order \<open>[tree, row, channel]\<close> in memory,
  and returns it with the first two dimensions exchanged. \<^verbatim>\<open>Tensor.view\<close> never copies: it
  can merge the tree and the channel dimension of that tensor only if they are adjacent in
  memory, which they are when there is at most one row, one tree or one channel, and
  otherwise it raises a \<^verbatim>\<open>RuntimeError\<close>.
\<close>

definition view_result :: "bool \<Rightarrow> fl tensor \<Rightarrow> int list \<Rightarrow> error + fl tensor" where
  "view_result flattened out sizes =
     (if flattened \<or> list_ex (\<lambda>n. n \<le> 1) (shape out) then view out sizes
      else Inl RuntimeError)"

text \<open>
  \<^verbatim>\<open>forward\<close>: the assertion, the call of itself on the input flattened to two
  dimensions, and for a 2-dimensional input the computation above.
\<close>

function forward :: "ODST \<Rightarrow> fl tensor \<Rightarrow> error + fl tensor" where
  "forward L input =
     (if length (shape input) < 2 then Inl AssertionError
      else if 2 < length (shape input) then
        (case view input [- 1, int (last (shape input))] of
           Inl e \<Rightarrow> Inl e
         | Inr input2 \<Rightarrow>
            (case forward L input2 of
               Inl e \<Rightarrow> Inl e
             | Inr out \<Rightarrow>
                 view_result (flatten_output L) out (map int (butlast (shape input)) @ [- 1])))
      else forward_2d L input)"
  by pat_completeness auto
termination
  by (relation "measure (\<lambda>(L, input). length (shape input))")
     (auto simp: view_def infer_size_def Let_def split: sum.splits if_splits)

declare forward.simps [simp del]

section \<open>The data-aware initialisation\<close>

text \<open>
  \<^verbatim>\<open>initialize\<close> takes the sample batch and \<^verbatim>\<open>eps\<close>. The draws of
  \<^verbatim>\<open>np.random.beta\<close> are an argument of the model: \<open>draws t l\<close> is the number drawn for
  tree \<open>t\<close> and level \<open>l\<close>. The result is the layer after the call, and whether the
  warning about a small sample was given.
\<close>

definition initialize ::
  "ODST \<Rightarrow> fl tensor \<Rightarrow> real \<Rightarrow> (nat \<Rightarrow> nat \<Rightarrow> real) \<Rightarrow> error + ODST \<times> bool" where
  "initialize L input eps draws =
     (if length (shape input) \<noteq> 2 then Inl AssertionError
      else let warned = (shape input ! 0 < 1000) in
      case feature_values L input of Inl e \<Rightarrow> Inl e | Inr fv \<Rightarrow>
      if threshold_init_beta L \<le> 0 then Inl ValueError
      else let percentiles_q = tabulate [num_trees L, depth L] (\<lambda>ix. 100 * draws (ix ! 0) (ix ! 1)) in
      case flatten_1_2 fv of Inl e \<Rightarrow> Inl e | Inr flat \<Rightarrow>
      case transpose_2d flat of Inl e \<Rightarrow> Inl e | Inr columns \<Rightarrow>
      case sequence (map2 np_percentile (rows columns) (data percentiles_q)) of
        Inl e \<Rightarrow> Inl e | Inr ps \<Rightarrow>
      case view \<lparr>shape = [length ps], data = ps\<rparr> [int (num_trees L), int (depth L)] of
        Inl e \<Rightarrow> Inl e | Inr thresholds \<Rightarrow>
      case assign_all (feature_thresholds L) thresholds of Inl e \<Rightarrow> Inl e | Inr thr \<Rightarrow>
      let L1 = L\<lparr>feature_thresholds := thr\<rparr> in
      case binop fsub fv (feature_thresholds L1) of Inl e \<Rightarrow> Inl e | Inr diff \<Rightarrow>
      case np_percentile_axis0 (map_tensor fabs diff)
             (100 * min 1 (threshold_init_cutoff L1)) of Inl e \<Rightarrow> Inl e | Inr temperatures \<Rightarrow>
      let temperatures2 = map_tensor (\<lambda>v. fdiv_pos v (max 1 (threshold_init_cutoff L1))) temperatures in
      case assign_all (log_temperatures L1)
             (map_tensor flog (map_tensor (\<lambda>v. fadd v (Fin eps)) temperatures2)) of
        Inl e \<Rightarrow> Inl e
      | Inr lt \<Rightarrow> Inr (L1\<lparr>log_temperatures := lt\<rparr>, warned))"

section \<open>Index lemmas\<close>

lemma length_indices: "length (indices sh) = numel sh"
  by (induction sh) (simp_all add: indices_def numel_def length_concat comp_def sum_list_triv)

lemma concat_blocks_nth:
  assumes "\<And>k. k < n \<Longrightarrow> length (f k) = m" and "i < n" and "j < m"
  shows "concat (map f [0..<n]) ! (i * m + j) = f i ! j"
  using assms
proof (induction n)
  case 0
  then show ?case by simp
next
  case (Suc n)
  have len: "length (concat (map f [0..<n])) = n * m"
    using Suc.prems(1) by (induction n) simp_all
  show ?case
  proof (cases "i < n")
    case True
    then have "i * m + j < n * m"
      using Suc.prems(3)
      by (metis Suc_leI add_less_cancel_left less_le_trans mult_Suc mult_le_mono1 add.commute)
    then show ?thesis
      using Suc True len by (simp add: nth_append)
  next
    case False
    then have "i = n" using Suc.prems(2) by simp
    then show ?thesis
      using len by (simp add: nth_append)
  qed
qed

lemma offset_less: "valid_index sh ix \<Longrightarrow> offset sh ix < numel sh"
proof (induction sh arbitrary: ix)
  case Nil
  then show ?case by (simp add: valid_index_def numel_def)
next
  case (Cons n ns)
  then obtain i js where ix: "ix = i # js" and i: "i < n" and js: "valid_index ns js"
    by (auto simp: valid_index_def list_all2_Cons2)
  have "offset ns js < prod_list ns"
    using Cons.IH [OF js] by (simp add: numel_def)
  then have "i * prod_list ns + offset ns js < Suc i * prod_list ns"
    by simp
  also have "\<dots> \<le> n * prod_list ns"
    using i by (intro mult_le_mono1) simp
  finally show ?case by (simp add: ix numel_def)
qed

lemma indices_nth: "valid_index sh ix \<Longrightarrow> indices sh ! offset sh ix = ix"
proof (induction sh arbitrary: ix)
  case Nil
  then show ?case by (simp add: valid_index_def indices_def)
next
  case (Cons n ns)
  then obtain i js where ix: "ix = i # js" and i: "i < n" and js: "valid_index ns js"
    by (auto simp: valid_index_def list_all2_Cons2)
  have off: "offset ns js < prod_list ns"
    using offset_less [OF js] by (simp add: numel_def)
  have len: "\<And>k. length (map ((#) k) (indices ns)) = prod_list ns"
    using length_indices [of ns] by (simp add: numel_def)
  have "indices (n # ns) ! offset (n # ns) ix
      = concat (map (\<lambda>k. map ((#) k) (indices ns)) [0..<n]) ! (i * prod_list ns + offset ns js)"
    by (simp add: indices_def ix)
  also have "\<dots> = map ((#) i) (indices ns) ! offset ns js"
    using len i off by (intro concat_blocks_nth) auto
  also have "\<dots> = i # js"
    using off length_indices [of ns] Cons.IH [OF js] by (simp add: numel_def)
  finally show ?case by (simp add: ix)
qed

lemma shape_tabulate [simp]: "shape (tabulate sh f) = sh"
  by (simp add: tabulate_def)

lemma length_data_tabulate [simp]: "length (data (tabulate sh f)) = numel sh"
  by (simp add: tabulate_def length_indices)

lemma data_tabulate_nth:
  "valid_index sh ix \<Longrightarrow> data (tabulate sh f) ! offset sh ix = f ix"
  using offset_less [of sh ix] indices_nth [of sh ix]
  by (simp add: tabulate_def length_indices)

lemma entry_tabulate: "valid_index sh ix \<Longrightarrow> entry (tabulate sh f) ix = f ix"
  by (simp add: entry_def data_tabulate_nth)

section \<open>Values and entries\<close>

lemma valid_index_Nil [simp]: "valid_index [] ix \<longleftrightarrow> ix = []"
  by (simp add: valid_index_def)

lemma valid_index_Cons [simp]:
  "valid_index (n # ns) (i # js) \<longleftrightarrow> i < n \<and> valid_index ns js"
  by (simp add: valid_index_def)

lemma valid_index_shape_Cons:
  "valid_index (n # ns) ix \<longleftrightarrow> (\<exists>i js. ix = i # js \<and> i < n \<and> valid_index ns js)"
  by (cases ix) (simp_all add: valid_index_def)

lemma valid_index_length: "valid_index sh ix \<Longrightarrow> length ix = length sh"
  by (simp add: valid_index_def list_all2_lengthD)

lemma well_shaped_tabulate [simp]: "well_shaped (tabulate sh f)"
  by (simp add: well_shaped_def)

lemma shape_map_tensor [simp]: "shape (map_tensor f t) = shape t"
  by (simp add: map_tensor_def)

lemma well_shaped_map_tensor [simp]: "well_shaped (map_tensor f t) = well_shaped t"
  by (simp add: map_tensor_def well_shaped_def)

lemma entry_map_tensor:
  "well_shaped t \<Longrightarrow> valid_index (shape t) ix \<Longrightarrow> entry (map_tensor f t) ix = f (entry t ix)"
  using offset_less [of "shape t" ix]
  by (simp add: entry_def map_tensor_def well_shaped_def)

lemma bidx_less [simp]: "i < n \<Longrightarrow> bidx n i = i"
  by (simp add: bidx_def)

lemma einsum_dim_same [simp]: "einsum_dim n n = Inr n"
  by (simp add: einsum_dim_def)

lemma indices_valid: "ix \<in> set (indices sh) \<Longrightarrow> valid_index sh ix"
  by (induction sh arbitrary: ix) (auto simp: indices_def)

lemma tabulate_cong:
  "(\<And>ix. valid_index sh ix \<Longrightarrow> f ix = g ix) \<Longrightarrow> tabulate sh f = tabulate sh g"
  by (simp add: tabulate_def indices_valid)

lemma map_upt_bidx:
  "map (\<lambda>i. f (bidx n i) i) [0..<n] = map (\<lambda>i. f i i) [0..<n]"
  by simp

lemma einsum_bi_ind_bnd_eq:
  assumes "shape x = [B, I]" and "shape s = [I, T, D]"
  shows "einsum_bi_ind_bnd x s =
    Inr (tabulate [B, T, D]
      (\<lambda>ix. fsum (map (\<lambda>i. fmul (entry x [ix ! 0, i]) (entry s [i, ix ! 1, ix ! 2])) [0..<I])))"
  using assms by (auto simp: einsum_bi_ind_bnd_def valid_index_shape_Cons intro!: tabulate_cong arg_cong [where f = fsum])

lemma einsum_btds_dcs_btdc_eq:
  assumes "shape x = [B, T, D, S]" and "shape y = [D, C, S]"
  shows "einsum_btds_dcs_btdc x y =
    Inr (tabulate [B, T, D, C]
      (\<lambda>ix. fsum (map (\<lambda>s. fmul (entry x [ix ! 0, ix ! 1, ix ! 2, s]) (entry y [ix ! 2, ix ! 3, s])) [0..<S])))"
  using assms by (auto simp: einsum_btds_dcs_btdc_def valid_index_shape_Cons intro!: tabulate_cong arg_cong [where f = fsum])

lemma einsum_bnd_ncd_bnc_eq:
  assumes "shape x = [B, N, D]" and "shape y = [N, C, D]"
  shows "einsum_bnd_ncd_bnc x y =
    Inr (tabulate [B, N, C]
      (\<lambda>ix. fsum (map (\<lambda>d. fmul (entry x [ix ! 0, ix ! 1, d]) (entry y [ix ! 1, ix ! 2, d])) [0..<D])))"
  using assms by (auto simp: einsum_bnd_ncd_bnc_def valid_index_shape_Cons intro!: tabulate_cong arg_cong [where f = fsum])

section \<open>Shapes and entries of the operations\<close>

lemma broadcast_shapes_3_2 [simp]: "broadcast_shapes [B, T, D] [T, D] = Inr [B, T, D]"
  by (simp add: broadcast_shapes_def)

lemma broadcast_shapes_same_2 [simp]: "broadcast_shapes [T, D] [T, D] = Inr [T, D]"
  by (simp add: broadcast_shapes_def)

lemma binop_3_2:
  assumes "shape a = [B, T, D]" and "shape b = [T, D]"
  shows "binop f a b =
    Inr (tabulate [B, T, D] (\<lambda>ix. f (entry a [ix ! 0, ix ! 1, ix ! 2]) (entry b [ix ! 1, ix ! 2])))"
  using assms
  by (auto simp: binop_def bindex_def valid_index_shape_Cons intro!: tabulate_cong)


lemma stack_last_3:
  assumes "shape a = [B, T, D]"
  shows "stack_last a b =
    tabulate [B, T, D, 2]
      (\<lambda>ix. if ix ! 3 = 0 then entry a [ix ! 0, ix ! 1, ix ! 2] else entry b [ix ! 0, ix ! 1, ix ! 2])"
  using assms
  by (auto simp: stack_last_def valid_index_shape_Cons intro!: tabulate_cong)

lemma stack_last_2:
  assumes "shape a = [D, C]"
  shows "stack_last a b =
    tabulate [D, C, 2]
      (\<lambda>ix. if ix ! 2 = 0 then entry a [ix ! 0, ix ! 1] else entry b [ix ! 0, ix ! 1])"
  using assms
  by (auto simp: stack_last_def valid_index_shape_Cons intro!: tabulate_cong)

lemma prod_dim_m2_4:
  assumes "shape t = [B, T, D, C]"
  shows "prod_dim_m2 t =
    Inr (tabulate [B, T, C] (\<lambda>ix. fprod (map (\<lambda>d. entry t [ix ! 0, ix ! 1, d, ix ! 2]) [0..<D])))"
  using assms
  by (auto simp: prod_dim_m2_def valid_index_shape_Cons intro!: tabulate_cong)

lemma bin_codes_entry:
  assumes "l < d" and "c < 2 ^ d"
  shows "entry (bin_codes d) [l, c] = Fin (real (c div 2 ^ l mod 2))"
  using assms by (simp add: bin_codes_def entry_tabulate)

lemma shape_bin_codes_table [simp]: "shape (bin_codes_table d) = [d, 2 ^ d, 2]"
  by (simp add: bin_codes_table_def stack_last_def bin_codes_def)

lemma bin_codes_table_entry:
  assumes "l < d" and "c < 2 ^ d" and "s < 2"
  shows "entry (bin_codes_table d) [l, c, s] =
    (if s = 0 then Fin (real (c div 2 ^ l mod 2)) else Fin (1 - real (c div 2 ^ l mod 2)))"
proof -
  have sh: "shape (bin_codes d) = [d, 2 ^ d]"
    by (simp add: bin_codes_def)
  have ws: "well_shaped (bin_codes d)"
    by (simp add: bin_codes_def)
  show ?thesis
    using assms
    by (simp add: bin_codes_table_def stack_last_2 [OF sh] entry_tabulate entry_map_tensor
        ws sh bin_codes_entry fsub_def)
qed

section \<open>Errors of the operations\<close>

lemma leaf_bits_inject:
  fixes c c' :: nat
  assumes "c < 2 ^ d" and "c' < 2 ^ d"
    and "\<And>l. l < d \<Longrightarrow> c div 2 ^ l mod 2 = c' div 2 ^ l mod 2"
  shows "c = c'"
proof (rule bit_eqI)
  fix n
  show "bit c n \<longleftrightarrow> bit c' n"
  proof (cases "n < d")
    case True
    then show ?thesis
      using assms(3) [of n] by (simp add: bit_iff_odd odd_iff_mod_2_eq_one)
  next
    case False
    then have "(2::nat) ^ d \<le> 2 ^ n" by simp
    then have "c < 2 ^ n" "c' < 2 ^ n"
      using assms(1,2) by linarith+
    then show ?thesis by (simp add: bit_iff_odd)
  qed
qed

lemma infer_size_error: "infer_size sizes n = Inl e \<Longrightarrow> e = RuntimeError"
  by (auto simp: infer_size_def Let_def split: if_splits)

lemma view_error: "view t sizes = Inl e \<Longrightarrow> e = RuntimeError"
  by (auto simp: view_def dest: infer_size_error split: sum.splits)

lemma einsum_dim_error: "einsum_dim a b = Inl e \<Longrightarrow> e = RuntimeError"
  by (auto simp: einsum_dim_def split: if_splits)

lemma einsum_bi_ind_bnd_error: "einsum_bi_ind_bnd x s = Inl e \<Longrightarrow> e = RuntimeError"
  by (auto simp: einsum_bi_ind_bnd_def dest: einsum_dim_error split: if_splits sum.splits)

lemma einsum_btds_dcs_btdc_error: "einsum_btds_dcs_btdc x s = Inl e \<Longrightarrow> e = RuntimeError"
  by (auto simp: einsum_btds_dcs_btdc_def dest: einsum_dim_error split: if_splits sum.splits)

lemma einsum_bnd_ncd_bnc_error: "einsum_bnd_ncd_bnc x s = Inl e \<Longrightarrow> e = RuntimeError"
  by (auto simp: einsum_bnd_ncd_bnc_def dest: einsum_dim_error split: if_splits sum.splits)

lemma binop_error: "binop f a b = Inl e \<Longrightarrow> e = RuntimeError"
  by (auto simp: binop_def broadcast_shapes_def split: sum.splits option.splits)

lemma prod_dim_m2_error: "prod_dim_m2 t = Inl e \<Longrightarrow> e = IndexError"
  by (auto simp: prod_dim_m2_def Let_def split: if_splits)

lemma flatten_1_2_error: "flatten_1_2 t = Inl e \<Longrightarrow> e = IndexError"
  by (auto simp: flatten_1_2_def split: list.splits)

lemma case_sum_no_assertion:
  assumes "m \<noteq> Inl AssertionError"
    and "\<And>v. m = Inr v \<Longrightarrow> f v \<noteq> Inl AssertionError"
  shows "(case m of Inl e \<Rightarrow> Inl e | Inr v \<Rightarrow> f v) \<noteq> Inl AssertionError"
  using assms by (cases m) auto

lemma view_no_assertion: "view t sizes \<noteq> Inl AssertionError"
  using view_error [of t sizes AssertionError] by auto

lemma view_result_no_assertion: "view_result flattened t sizes \<noteq> Inl AssertionError"
  by (simp add: view_result_def view_no_assertion)

lemma einsum_bi_ind_bnd_no_assertion: "einsum_bi_ind_bnd x s \<noteq> Inl AssertionError"
  using einsum_bi_ind_bnd_error [of x s AssertionError] by auto

lemma einsum_btds_dcs_btdc_no_assertion: "einsum_btds_dcs_btdc x s \<noteq> Inl AssertionError"
  using einsum_btds_dcs_btdc_error [of x s AssertionError] by auto

lemma einsum_bnd_ncd_bnc_no_assertion: "einsum_bnd_ncd_bnc x s \<noteq> Inl AssertionError"
  using einsum_bnd_ncd_bnc_error [of x s AssertionError] by auto

lemma binop_no_assertion: "binop f a b \<noteq> Inl AssertionError"
  using binop_error [of f a b AssertionError] by auto

lemma prod_dim_m2_no_assertion: "prod_dim_m2 t \<noteq> Inl AssertionError"
  using prod_dim_m2_error [of t AssertionError] by auto

lemma flatten_1_2_no_assertion: "flatten_1_2 t \<noteq> Inl AssertionError"
  using flatten_1_2_error [of t AssertionError] by auto

lemma response_weights_no_assertion: "response_weights L x \<noteq> Inl AssertionError"
  unfolding response_weights_def feature_values_def Let_def
  by (intro case_sum_no_assertion einsum_bi_ind_bnd_no_assertion binop_no_assertion
      einsum_btds_dcs_btdc_no_assertion prod_dim_m2_no_assertion)

lemma forward_2d_no_assertion: "forward_2d L x \<noteq> Inl AssertionError"
  unfolding forward_2d_def
  by (intro case_sum_no_assertion response_weights_no_assertion einsum_bnd_ncd_bnc_no_assertion)
    (simp add: flatten_1_2_no_assertion)

lemma forward_two_dims: "length (shape x) = 2 \<Longrightarrow> forward L x = forward_2d L x"
  by (subst forward.simps) simp

lemma view_two_dims: "view t [a, b] = Inr t' \<Longrightarrow> length (shape t') = 2"
  by (auto simp: view_def infer_size_def Let_def split: sum.splits if_splits)

text \<open>
  Claim C8. \<^verbatim>\<open>forward\<close> fails with the assertion error exactly when its input has fewer
  than two dimensions; an input of two or more dimensions passes the assertion, also in
  the call of \<^verbatim>\<open>forward\<close> on the flattened input, and no later step raises that error.
\<close>

theorem forward_assertion_iff:
  "forward L input = Inl AssertionError \<longleftrightarrow> length (shape input) < 2"
proof (cases "length (shape input) < 2")
  case True
  then show ?thesis by (subst forward.simps) simp
next
  case False
  show ?thesis
  proof (cases "2 < length (shape input)")
    case True
    have inner: "forward L v \<noteq> Inl AssertionError"
      if "view input [- 1, int (last (shape input))] = Inr v" for v
      using view_two_dims [OF that] by (simp add: forward_two_dims forward_2d_no_assertion)
    have "(case view input [- 1, int (last (shape input))] of
             Inl e \<Rightarrow> Inl e
           | Inr input2 \<Rightarrow>
              (case forward L input2 of
                 Inl e \<Rightarrow> Inl e
               | Inr out \<Rightarrow>
                   view_result (flatten_output L) out (map int (butlast (shape input)) @ [- 1])))
          \<noteq> Inl AssertionError"
      by (intro case_sum_no_assertion view_no_assertion view_result_no_assertion inner)
    then have "forward L input \<noteq> Inl AssertionError"
      using True by (subst forward.simps) simp
    with True show ?thesis by simp
  next
    case False
    with \<open>\<not> length (shape input) < 2\<close> have "length (shape input) = 2" by simp
    then show ?thesis
      by (simp add: forward_two_dims forward_2d_no_assertion)
  qed
qed

section \<open>The routing code table\<close>

lemma case_sum_InrE:
  assumes "(case m of Inl e \<Rightarrow> Inl e | Inr v \<Rightarrow> f v) = Inr r"
  obtains v where "m = Inr v" and "f v = Inr r"
  using assms by (cases m) auto

lemma initialize_frame:
  assumes "initialize L input eps draws = Inr (L', w)"
  shows "\<exists>thr lt. L' = L\<lparr>feature_thresholds := thr, log_temperatures := lt\<rparr>"
  using assms unfolding initialize_def Let_def
  by (auto split: if_splits sum.splits)

lemma bin_codes_1hot_init [simp]:
  "bin_codes_1hot (ODST_init in_features n_trees dep tree_output_dim flatten choice bin ir il beta cutoff)
     = bin_codes_table dep"
  by (simp add: ODST_init_def)

text \<open>
  Claim C6. The table of binary codes that the constructor builds has the shape
  \<open>[depth, 2 ^ depth, 2]\<close>; at level \<open>l\<close> and leaf \<open>c\<close> its entry 0 is the bit
  \<open>c div 2 ^ l mod 2\<close> and its entry 1 is the complement of that bit; two different leaves
  differ in the code of some level; and \<^verbatim>\<open>initialize\<close> returns the layer with the table
  it was given. \<^verbatim>\<open>forward\<close> assigns to no attribute of the layer: it is a function from
  the layer and the input to the output alone.
\<close>

theorem routing_code_table:
  assumes "L = ODST_init in_features n_trees dep tree_output_dim flatten choice bin ir il beta cutoff"
  shows "shape (bin_codes_1hot L) = [dep, 2 ^ dep, 2]
    \<and> (\<forall>l<dep. \<forall>c<2 ^ dep.
          entry (bin_codes_1hot L) [l, c, 0] = Fin (real (c div 2 ^ l mod 2))
        \<and> entry (bin_codes_1hot L) [l, c, 1] = Fin (1 - real (c div 2 ^ l mod 2)))
    \<and> (\<forall>c<2 ^ dep. \<forall>c'<2 ^ dep. c \<noteq> c' \<longrightarrow>
          (\<exists>l<dep. entry (bin_codes_1hot L) [l, c, 0] \<noteq> entry (bin_codes_1hot L) [l, c', 0]))
    \<and> (\<forall>input eps draws L' w.
          initialize L input eps draws = Inr (L', w) \<longrightarrow> bin_codes_1hot L' = bin_codes_1hot L)"
proof (intro conjI allI impI)
  show "shape (bin_codes_1hot L) = [dep, 2 ^ dep, 2]"
    by (simp add: assms)
next
  fix l c :: nat
  assume "l < dep" and "c < 2 ^ dep"
  then show "entry (bin_codes_1hot L) [l, c, 0] = Fin (real (c div 2 ^ l mod 2))"
    by (simp add: assms bin_codes_table_entry)
next
  fix l c :: nat
  assume "l < dep" and "c < 2 ^ dep"
  then show "entry (bin_codes_1hot L) [l, c, 1] = Fin (1 - real (c div 2 ^ l mod 2))"
    by (simp add: assms bin_codes_table_entry)
next
  fix c c' :: nat
  assume c: "c < 2 ^ dep" and c': "c' < 2 ^ dep" and ne: "c \<noteq> c'"
  show "\<exists>l<dep. entry (bin_codes_1hot L) [l, c, 0] \<noteq> entry (bin_codes_1hot L) [l, c', 0]"
  proof (rule ccontr)
    assume "\<not> ?thesis"
    then have "\<And>l. l < dep \<Longrightarrow> c div 2 ^ l mod 2 = c' div 2 ^ l mod 2"
      using c c' by (simp add: assms bin_codes_table_entry)
    then have "c = c'"
      by (rule leaf_bits_inject [OF c c'])
    with ne show False by simp
  qed
next
  fix input eps draws L' w
  assume "initialize L input eps draws = Inr (L', w)"
  then obtain thr lt where "L' = L\<lparr>feature_thresholds := thr, log_temperatures := lt\<rparr>"
    using initialize_frame by blast
  then show "bin_codes_1hot L' = bin_codes_1hot L" by simp
qed

theorem routing_code_table_witness:
  "entry (bin_codes_1hot (ODST_init 1 1 1 1 True (\<lambda>t d. t) (\<lambda>t. t) (\<lambda>ix. Fin 0) (\<lambda>ix. Fin 0) 1 1))
      [0, 1, 0] = Fin 1
   \<and> entry (bin_codes_1hot (ODST_init 1 1 1 1 True (\<lambda>t d. t) (\<lambda>t. t) (\<lambda>ix. Fin 0) (\<lambda>ix. Fin 0) 1 1))
      [0, 1, 1] = Fin 0
   \<and> entry (bin_codes_1hot (ODST_init 1 1 1 1 True (\<lambda>t d. t) (\<lambda>t. t) (\<lambda>ix. Fin 0) (\<lambda>ix. Fin 0) 1 1))
      [0, 0, 0] = Fin 0"
  using routing_code_table [OF refl, of 1 1 1 1 True "\<lambda>t d. t" "\<lambda>t. t" "\<lambda>ix. Fin 0" "\<lambda>ix. Fin 0" 1 1]
  by simp

section \<open>The shape of the result\<close>

lemma forward_2d_shape:
  assumes resp: "shape (response L) = [T, K, C]"
    and thr: "shape (feature_thresholds L) = [T, D]"
    and lt: "shape (log_temperatures L) = [T, D]"
    and codes: "shape (bin_codes_1hot L) = [D, C, 2]"
    and ch: "shape (choice_function L (feature_selection_logits L) 0) = [n_in, T, D]"
    and bn: "\<And>t. shape (bin_function L t) = shape t"
    and x: "shape x = [B, n_in]"
  shows "\<exists>out. forward_2d L x = Inr out
    \<and> shape out = (if flatten_output L then [B, T * K] else [B, T, K])"
proof -
  obtain F where fv: "feature_values L x = Inr (tabulate [B, T, D] F)"
    unfolding feature_values_def Let_def einsum_bi_ind_bnd_eq [OF x ch] by blast
  obtain G where diff: "binop fsub (tabulate [B, T, D] F) (feature_thresholds L)
      = Inr (tabulate [B, T, D] G)"
    using binop_3_2 [OF shape_tabulate thr] by blast
  have lt': "shape (map_tensor fexp (map_tensor fneg (log_temperatures L))) = [T, D]"
    by (simp add: lt)
  obtain H where tl: "binop fmul (tabulate [B, T, D] G)
      (map_tensor fexp (map_tensor fneg (log_temperatures L))) = Inr (tabulate [B, T, D] H)"
    using binop_3_2 [OF shape_tabulate lt'] by blast
  define bins where "bins = bin_function L
    (stack_last (map_tensor fneg (tabulate [B, T, D] H)) (tabulate [B, T, D] H))"
  have sb: "shape bins = [B, T, D, 2]"
    by (simp add: bins_def bn stack_last_def)
  obtain M where bm: "einsum_btds_dcs_btdc bins (bin_codes_1hot L) = Inr (tabulate [B, T, D, C] M)"
    using einsum_btds_dcs_btdc_eq [OF sb codes] by blast
  obtain W where rw: "prod_dim_m2 (tabulate [B, T, D, C] M) = Inr (tabulate [B, T, C] W)"
    using prod_dim_m2_4 [OF shape_tabulate] by blast
  obtain R where out: "einsum_bnd_ncd_bnc (tabulate [B, T, C] W) (response L)
      = Inr (tabulate [B, T, K] R)"
    using einsum_bnd_ncd_bnc_eq [OF shape_tabulate resp] by blast
  have "response_weights L x = Inr (tabulate [B, T, C] W)"
    unfolding response_weights_def
    by (simp only: fv diff tl sum.case Let_def bins_def [symmetric] bm rw)
  then show ?thesis
    unfolding forward_2d_def by (simp add: out flatten_1_2_def)
qed


text \<open>Views that flatten the leading dimensions and restore them.\<close>

lemma view_flatten_leading:
  assumes "shape x = ds @ [n]" and "0 < n"
  shows "view x [- 1, int n] = Inr (x\<lparr>shape := [prod_list ds, n]\<rparr>)"
  using assms by (simp add: view_def infer_size_def numel_def)

lemma filter_minus_one_nat [simp]:
  "filter (\<lambda>s. s = - 1) (map int ds) = []" "filter (\<lambda>s. s \<noteq> - 1) (map int ds) = map int ds"
  by (induction ds) simp_all

lemma nat_comp_int [simp]: "nat \<circ> int = id"
  by auto

lemma map_restore_sizes [simp]:
  "map ((\<lambda>s. if s = - 1 then v else nat s) \<circ> int) ds = ds"
  by (induction ds) simp_all

lemma view_restore_leading:
  assumes "numel (shape out) = prod_list ds * m" and "0 < prod_list ds"
  shows "view out (map int ds @ [- 1]) = Inr (out\<lparr>shape := ds @ [m]\<rparr>)"
proof -
  have "\<not> list_ex (\<lambda>s. s < - 1) (map int ds)"
    by (simp add: list_ex_iff)
  then show ?thesis
    using assms by (simp add: view_def infer_size_def Let_def)
qed

lemma forward_nd:
  assumes x: "shape x = ds @ [n]" and ds: "2 \<le> length ds" and n: "0 < n" and p: "0 < prod_list ds"
    and out: "forward_2d L (x\<lparr>shape := [prod_list ds, n]\<rparr>) = Inr out"
    and m: "numel (shape out) = prod_list ds * m"
    and v: "flatten_output L \<or> list_ex (\<lambda>n. n \<le> 1) (shape out)"
  shows "forward L x = Inr (out\<lparr>shape := ds @ [m]\<rparr>)"
proof -
  have sx: "2 < length (shape x)" "\<not> length (shape x) < 2" "last (shape x) = n"
    "butlast (shape x) = ds"
    using x ds by auto
  have two: "forward L (x\<lparr>shape := [prod_list ds, n]\<rparr>) = Inr out"
    using out by (simp add: forward_two_dims)
  have res: "view_result (flatten_output L) out (map int ds @ [- 1]) = Inr (out\<lparr>shape := ds @ [m]\<rparr>)"
    using v by (simp add: view_result_def view_restore_leading [OF m p])
  show ?thesis
    by (subst forward.simps) (simp add: sx view_flatten_leading [OF x n] two res)
qed

lemma forward_nd_unviewable:
  assumes x: "shape x = ds @ [n]" and ds: "2 \<le> length ds" and n: "0 < n"
    and out: "forward_2d L (x\<lparr>shape := [prod_list ds, n]\<rparr>) = Inr out"
    and v: "\<not> flatten_output L" "\<not> list_ex (\<lambda>n. n \<le> 1) (shape out)"
  shows "forward L x = Inl RuntimeError"
proof -
  have sx: "2 < length (shape x)" "\<not> length (shape x) < 2" "last (shape x) = n"
    "butlast (shape x) = ds"
    using x ds by auto
  have two: "forward L (x\<lparr>shape := [prod_list ds, n]\<rparr>) = Inr out"
    using out by (simp add: forward_two_dims)
  have res: "view_result (flatten_output L) out (map int ds @ [- 1]) = Inl RuntimeError"
    using v by (simp add: view_result_def)
  show ?thesis
    by (subst forward.simps) (simp add: sx view_flatten_leading [OF x n] two res)
qed


lemma view_restore_empty:
  assumes "prod_list ds = 0"
  shows "view out (map int ds @ [- 1]) = Inl RuntimeError"
proof -
  have "\<not> list_ex (\<lambda>s. s < - 1) (map int ds)"
    by (simp add: list_ex_iff)
  then show ?thesis
    using assms by (simp add: view_def infer_size_def Let_def)
qed

lemma forward_nd_empty:
  assumes x: "shape x = ds @ [n]" and ds: "2 \<le> length ds" and p: "n = 0 \<or> prod_list ds = 0"
    and out: "\<exists>out. forward_2d L (x\<lparr>shape := [prod_list ds, n]\<rparr>) = Inr out"
  shows "forward L x = Inl RuntimeError"
proof (cases "n = 0")
  case True
  have sx: "2 < length (shape x)" "\<not> length (shape x) < 2" "last (shape x) = 0"
    using x ds True by auto
  have "view x [- 1, 0] = Inl RuntimeError"
    by (simp add: view_def infer_size_def)
  then show ?thesis
    by (subst forward.simps) (simp add: sx)
next
  case False
  then have n: "0 < n" and p0: "prod_list ds = 0"
    using p by simp_all
  have sx: "2 < length (shape x)" "\<not> length (shape x) < 2" "last (shape x) = n"
    "butlast (shape x) = ds"
    using x ds by auto
  obtain out where two: "forward L (x\<lparr>shape := [prod_list ds, n]\<rparr>) = Inr out"
    using out by (auto simp: forward_two_dims)
  have res: "view_result (flatten_output L) out (map int ds @ [- 1]) = Inl RuntimeError"
    by (simp add: view_result_def view_restore_empty [OF p0])
  show ?thesis
    by (subst forward.simps) (simp add: sx view_flatten_leading [OF x n] two res)
qed


lemma forward_shape_nd:
  assumes resp: "shape (response L) = [T, K, C]"
    and thr: "shape (feature_thresholds L) = [T, D]"
    and lt: "shape (log_temperatures L) = [T, D]"
    and codes: "shape (bin_codes_1hot L) = [D, C, 2]"
    and ch: "shape (choice_function L (feature_selection_logits L) 0) = [n_in, T, D]"
    and bn: "\<And>t. shape (bin_function L t) = shape t"
    and x: "shape x = ds @ [n_in]" and ds: "2 \<le> length ds"
    and n: "0 < n_in" and p: "0 < prod_list ds"
    and v: "flatten_output L \<or> prod_list ds = 1 \<or> T \<le> 1 \<or> K \<le> 1"
  shows "\<exists>y. forward L x = Inr y \<and> shape y = ds @ [T * K]"
proof -
  obtain out where o: "forward_2d L (x\<lparr>shape := [prod_list ds, n_in]\<rparr>) = Inr out"
    and so: "shape out = (if flatten_output L then [prod_list ds, T * K] else [prod_list ds, T, K])"
    using forward_2d_shape [OF resp thr lt codes ch bn, of "x\<lparr>shape := [prod_list ds, n_in]\<rparr>" "prod_list ds"]
    by auto
  have m: "numel (shape out) = prod_list ds * (T * K)"
    by (simp add: so numel_def)
  have vw: "flatten_output L \<or> list_ex (\<lambda>n. n \<le> 1) (shape out)"
    using v by (auto simp: so)
  show ?thesis
    using forward_nd [OF x ds n p o m vw] by simp
qed

text \<open>
  Claim C2. With \<^verbatim>\<open>flatten_output\<close> false and an input of more than two dimensions the
  result does not end in the two dimensions \<open>[num_trees, tree_dim]\<close>: \<^verbatim>\<open>forward\<close> views the
  result of the call on the flattened input with the sizes \<^verbatim>\<open>(*input.shape[:-1], -1)\<close>, which
  merges the trees and the channels. A layer of one input feature and one tree of depth one
  with two channels returns a tensor of shape \<open>[2, 3, 2]\<close>, not \<open>[2, 3, 1, 2]\<close>, on an input
  of shape \<open>[2, 3, 1]\<close>.
\<close>

theorem forward_unflattened_shape:
  "\<exists>y. forward (ODST_init 1 1 1 2 False (\<lambda>t d. t) (\<lambda>t. t) (\<lambda>ix. Fin 0) (\<lambda>ix. Fin 0) 1 1)
          \<lparr>shape = [2, 3, 1], data = replicate 6 (Fin 1)\<rparr> = Inr y
     \<and> shape y = [2, 3, 2] \<and> shape y \<noteq> [2, 3, 1, 2]"
proof -
  define L where "L = ODST_init 1 1 1 2 False (\<lambda>t d. t) (\<lambda>t. t) (\<lambda>ix. Fin 0) (\<lambda>ix. Fin 0) 1 1"
  define x :: "fl tensor" where "x = \<lparr>shape = [2, 3, 1], data = replicate 6 (Fin 1)\<rparr>"
  have resp: "shape (response L) = [1, 2, 2]"
    and thr: "shape (feature_thresholds L) = [1, 1]"
    and lt: "shape (log_temperatures L) = [1, 1]"
    and codes: "shape (bin_codes_1hot L) = [1, 2, 2]"
    and ch: "shape (choice_function L (feature_selection_logits L) 0) = [1, 1, 1]"
    and bn: "\<And>t. shape (bin_function L t) = shape t"
    by (simp_all add: L_def ODST_init_def)
  have x: "shape x = [2, 3] @ [1]"
    by (simp add: x_def)
  have "\<exists>y. forward L x = Inr y \<and> shape y = [2, 3] @ [1 * 2]"
    by (rule forward_shape_nd [OF resp thr lt codes ch bn x]) simp_all
  then show ?thesis
    unfolding L_def x_def by auto
qed

section \<open>Trees of depth zero\<close>

lemma fmul_one_fadd_zero: "fadd (fmul (Fin 1) v) (Fin 0) = v"
  by (cases v) (simp_all add: inf_of_sign_def)

text \<open>A tree of depth 0: the product over no level is 1, and the single leaf answers.\<close>

lemma forward_2d_depth_zero:
  assumes resp: "shape (response L) = [T, K, 1]"
    and thr: "shape (feature_thresholds L) = [T, 0]"
    and lt: "shape (log_temperatures L) = [T, 0]"
    and codes: "bin_codes_1hot L = bin_codes_table 0"
    and ch: "shape (choice_function L (feature_selection_logits L) 0) = [n_in, T, 0]"
    and bn: "\<And>t. shape (bin_function L t) = shape t"
    and x: "shape x = [B, n_in]"
  shows "forward_2d L x =
    Inr ((tabulate [B, T, K] (\<lambda>ix. entry (response L) [ix ! 1, ix ! 2, 0]))
         \<lparr>shape := (if flatten_output L then [B, T * K] else [B, T, K])\<rparr>)"
proof -
  obtain F where fv: "feature_values L x = Inr (tabulate [B, T, 0] F)"
    unfolding feature_values_def Let_def einsum_bi_ind_bnd_eq [OF x ch] by blast
  obtain G where diff: "binop fsub (tabulate [B, T, 0] F) (feature_thresholds L)
      = Inr (tabulate [B, T, 0] G)"
    using binop_3_2 [OF shape_tabulate thr] by blast
  have lt': "shape (map_tensor fexp (map_tensor fneg (log_temperatures L))) = [T, 0]"
    by (simp add: lt)
  obtain H where tl: "binop fmul (tabulate [B, T, 0] G)
      (map_tensor fexp (map_tensor fneg (log_temperatures L))) = Inr (tabulate [B, T, 0] H)"
    using binop_3_2 [OF shape_tabulate lt'] by blast
  define bins where "bins = bin_function L
    (stack_last (map_tensor fneg (tabulate [B, T, 0] H)) (tabulate [B, T, 0] H))"
  have sb: "shape bins = [B, T, 0, 2]"
    by (simp add: bins_def bn stack_last_def)
  have sc: "shape (bin_codes_table 0) = [0, 1, 2]"
    by simp
  obtain M where bm: "einsum_btds_dcs_btdc bins (bin_codes_1hot L) = Inr (tabulate [B, T, 0, 1] M)"
    unfolding codes
    using einsum_btds_dcs_btdc_eq [OF sb sc] by blast
  have rw: "prod_dim_m2 (tabulate [B, T, 0, 1] M) = Inr (tabulate [B, T, 1] (\<lambda>ix. Fin 1))"
    by (subst prod_dim_m2_4 [where B = B and T = T and D = 0 and C = 1]) simp_all
  have out: "einsum_bnd_ncd_bnc (tabulate [B, T, 1] (\<lambda>ix. Fin 1)) (response L)
      = Inr (tabulate [B, T, K] (\<lambda>ix. entry (response L) [ix ! 1, ix ! 2, 0]))"
    by (subst einsum_bnd_ncd_bnc_eq [where B = B and N = T and D = 1 and C = K])
      (auto simp: resp valid_index_shape_Cons entry_tabulate fmul_one_fadd_zero intro!: tabulate_cong)
  have "response_weights L x = Inr (tabulate [B, T, 1] (\<lambda>ix. Fin 1))"
    unfolding response_weights_def
    by (simp only: fv diff tl sum.case Let_def bins_def [symmetric] bm rw)
  then show ?thesis
    unfolding forward_2d_def by (simp add: out flatten_1_2_def del: One_nat_def)
qed


lemma depth_zero_result:
  assumes resp: "shape (response L) = [T, K, 1]"
    and thr: "shape (feature_thresholds L) = [T, 0]"
    and lt: "shape (log_temperatures L) = [T, 0]"
    and codes: "bin_codes_1hot L = bin_codes_table 0"
    and ch: "shape (choice_function L (feature_selection_logits L) 0) = [n_in, T, 0]"
    and bn: "\<And>t. shape (bin_function L t) = shape t"
    and x: "shape x = ds @ [n_in]"
    and ds: "ds \<noteq> []"
  shows "forward L x =
    (if length ds = 1 then
       Inr ((tabulate [prod_list ds, T, K] (\<lambda>ix. entry (response L) [ix ! 1, ix ! 2, 0]))
            \<lparr>shape := (if flatten_output L then [prod_list ds, T * K] else [prod_list ds, T, K])\<rparr>)
     else if 0 < n_in \<and> 0 < prod_list ds
         \<and> (flatten_output L \<or> prod_list ds = 1 \<or> T \<le> 1 \<or> K \<le> 1) then
       Inr ((tabulate [prod_list ds, T, K] (\<lambda>ix. entry (response L) [ix ! 1, ix ! 2, 0]))
            \<lparr>shape := ds @ [T * K]\<rparr>)
     else Inl RuntimeError)"
proof -
  define P where "P = prod_list ds"
  define out where "out = (tabulate [P, T, K] (\<lambda>ix. entry (response L) [ix ! 1, ix ! 2, 0]))
    \<lparr>shape := (if flatten_output L then [P, T * K] else [P, T, K])\<rparr>"
  have o: "forward_2d L x' = Inr out" if "shape x' = [P, n_in]" for x'
    unfolding out_def by (rule forward_2d_depth_zero [OF resp thr lt codes ch bn that])
  have o2: "forward_2d L (x\<lparr>shape := [prod_list ds, n_in]\<rparr>) = Inr out"
    by (rule o) (simp add: P_def)
  have m: "numel (shape out) = prod_list ds * (T * K)"
    by (simp add: out_def numel_def P_def)
  have "0 < length ds"
    using ds by simp
  then have len: "length ds = 1 \<or> 2 \<le> length ds"
    by arith
  consider (two) "length ds = 1"
    | (ok) "2 \<le> length ds" "0 < n_in" "0 < P" "flatten_output L \<or> P = 1 \<or> T \<le> 1 \<or> K \<le> 1"
    | (empty) "2 \<le> length ds" "n_in = 0 \<or> P = 0"
    | (strided) "2 \<le> length ds" "0 < n_in" "\<not> flatten_output L" "1 < P" "1 < T" "1 < K"
    using len by atomize_elim arith
  then show ?thesis
  proof cases
    case two
    then obtain B where B: "ds = [B]"
      by (cases ds) simp_all
    have sx: "shape x = [P, n_in]"
      using x by (simp add: B P_def)
    have "forward L x = Inr out"
      using o [OF sx] sx by (simp add: forward_two_dims)
    then show ?thesis
      using two by (simp add: out_def P_def)
  next
    case ok
    have vw: "flatten_output L \<or> list_ex (\<lambda>n. n \<le> 1) (shape out)"
      using ok(4) by (auto simp: out_def)
    have "forward L x = Inr (out\<lparr>shape := ds @ [T * K]\<rparr>)"
      using ok(3) by (intro forward_nd [OF x ok(1) ok(2) _ o2 m vw]) (simp add: P_def)
    then show ?thesis
      using ok by (simp add: out_def P_def)
  next
    case empty
    have "forward L x = Inl RuntimeError"
      using empty(2) o2 by (intro forward_nd_empty [OF x empty(1)]) (auto simp: P_def)
    then show ?thesis
      using empty by (auto simp: P_def)
  next
    case strided
    have nv: "\<not> list_ex (\<lambda>n. n \<le> 1) (shape out)"
      using strided by (simp add: out_def)
    have "forward L x = Inl RuntimeError"
      by (rule forward_nd_unviewable [OF x strided(1) strided(2) o2 strided(3) nv])
    then show ?thesis
      using strided by (simp add: P_def)
  qed
qed


lemma flat_position: "offset [P, T, K] [r, t, k] = (r * T + t) * K + k"
  by (simp add: algebra_simps)

lemma data_tabulate_3:
  assumes "r < P" and "t < T" and "k < K"
  shows "data ((tabulate [P, T, K] f)\<lparr>shape := sh\<rparr>) ! ((r * T + t) * K + k) = f [r, t, k]"
proof -
  have "data (tabulate [P, T, K] f) ! offset [P, T, K] [r, t, k] = f [r, t, k]"
    using assms by (intro data_tabulate_nth) simp
  then show ?thesis
    by (simp only: flat_position) simp
qed

text \<open>
  Claim C9. A layer constructed with depth 0 has one leaf for each tree. Whenever
  \<^verbatim>\<open>forward\<close> returns a result, its entry for row \<open>r\<close> of the flattened batch, tree \<open>t\<close>
  and channel \<open>k\<close> is the response of the single leaf of that tree; \<^verbatim>\<open>forward\<close> does
  return a result on every input of two dimensions, and on an input of more dimensions
  that has no empty dimension and whose result can be viewed; and the result is the same
  for all inputs of one shape, so no entry of the input enters it. The callables only
  have to keep the shape of their argument.
\<close>

theorem depth_zero_forward:
  assumes L: "L = ODST_init n_in n_trees 0 tree_output_dim flatten choice bin ir il beta cutoff"
    and ch: "shape (choice (feature_selection_logits L) 0) = shape (feature_selection_logits L)"
    and bn: "\<And>t. shape (bin t) = shape t"
    and x: "shape x = ds @ [n_in]"
    and ds: "ds \<noteq> []"
  shows "shape (response L) = [n_trees, tree_output_dim, 2 ^ 0]
    \<and> (\<forall>y. forward L x = Inr y \<longrightarrow>
          shape y = ds @ (if length ds = 1 \<and> \<not> flatten then [n_trees, tree_output_dim]
                          else [n_trees * tree_output_dim])
        \<and> (\<forall>r<prod_list ds. \<forall>t<n_trees. \<forall>k<tree_output_dim.
              data y ! ((r * n_trees + t) * tree_output_dim + k) = entry (response L) [t, k, 0]))
    \<and> (length ds = 1
        \<or> (0 < n_in \<and> 0 < prod_list ds
            \<and> (flatten \<or> prod_list ds = 1 \<or> n_trees \<le> 1 \<or> tree_output_dim \<le> 1))
       \<longrightarrow> (\<exists>y. forward L x = Inr y))
    \<and> (\<forall>x'. shape x' = shape x \<longrightarrow> forward L x' = forward L x)"
proof -
  have resp: "shape (response L) = [n_trees, tree_output_dim, 1]"
    and thr: "shape (feature_thresholds L) = [n_trees, 0]"
    and lt: "shape (log_temperatures L) = [n_trees, 0]"
    and codes: "bin_codes_1hot L = bin_codes_table 0"
    and ch': "shape (choice_function L (feature_selection_logits L) 0) = [n_in, n_trees, 0]"
    and bn': "\<And>t. shape (bin_function L t) = shape t"
    and fl: "flatten_output L = flatten"
    using ch bn by (simp_all add: L ODST_init_def)
  note res = depth_zero_result [OF resp thr lt codes ch' bn' _ ds]
  have c1: "shape (response L) = [n_trees, tree_output_dim, 2 ^ 0]"
    using resp by simp
  have c2: "shape y = ds @ (if length ds = 1 \<and> \<not> flatten then [n_trees, tree_output_dim]
                          else [n_trees * tree_output_dim])
        \<and> (\<forall>r<prod_list ds. \<forall>t<n_trees. \<forall>k<tree_output_dim.
              data y ! ((r * n_trees + t) * tree_output_dim + k) = entry (response L) [t, k, 0])"
    if y: "forward L x = Inr y" for y
  proof -
    obtain sh where ysh: "y = (tabulate [prod_list ds, n_trees, tree_output_dim]
        (\<lambda>ix. entry (response L) [ix ! 1, ix ! 2, 0]))\<lparr>shape := sh\<rparr>"
      and sh: "sh = (if length ds = 1
          then (if flatten then [prod_list ds, n_trees * tree_output_dim]
                else [prod_list ds, n_trees, tree_output_dim])
          else ds @ [n_trees * tree_output_dim])"
      using y unfolding res [OF x] fl by (auto split: if_splits)
    have "shape y = sh"
      by (simp add: ysh)
    moreover have "sh = ds @ (if length ds = 1 \<and> \<not> flatten then [n_trees, tree_output_dim]
                          else [n_trees * tree_output_dim])"
    proof (cases "length ds = 1")
      case True
      then obtain B where "ds = [B]"
        by (cases ds) simp_all
      then show ?thesis
        by (simp add: sh)
    next
      case False
      then show ?thesis
        by (simp add: sh)
    qed
    moreover have "data y ! ((r * n_trees + t) * tree_output_dim + k) = entry (response L) [t, k, 0]"
      if "r < prod_list ds" "t < n_trees" "k < tree_output_dim" for r t k
      unfolding ysh by (subst data_tabulate_3 [OF that]) simp
    ultimately show ?thesis
      by simp
  qed
  have c3: "\<exists>y. forward L x = Inr y"
    if "length ds = 1
        \<or> (0 < n_in \<and> 0 < prod_list ds
            \<and> (flatten \<or> prod_list ds = 1 \<or> n_trees \<le> 1 \<or> tree_output_dim \<le> 1))"
    using that unfolding res [OF x] fl by auto
  have c4: "forward L x' = forward L x" if "shape x' = shape x" for x'
  proof -
    have "shape x' = ds @ [n_in]"
      using that x by simp
    then show ?thesis
      unfolding res [OF x] by (rule res)
  qed
  show ?thesis
    using c1 c2 c3 c4 by blast
qed


theorem depth_zero_forward_witness:
  "\<exists>y. forward (ODST_init 1 2 0 1 False (\<lambda>t d. t) (\<lambda>t. t) (\<lambda>ix. Fin (3 + real (ix ! 0)))
              (\<lambda>ix. Fin 0) 1 1) \<lparr>shape = [1, 1], data = [Fin 7]\<rparr> = Inr y
     \<and> shape y = [1, 2, 1] \<and> data y ! 0 = Fin 3 \<and> data y ! 1 = Fin 4"
proof -
  define L where "L = ODST_init 1 2 0 1 False (\<lambda>t d. t) (\<lambda>t. t) (\<lambda>ix. Fin (3 + real (ix ! 0)))
              (\<lambda>ix. Fin 0) 1 1"
  define x :: "fl tensor" where "x = \<lparr>shape = [1, 1], data = [Fin 7]\<rparr>"
  have x: "shape x = [1] @ [1]"
    by (simp add: x_def)
  have ds: "[1::nat] \<noteq> []"
    by simp
  note w = depth_zero_forward [where bin = "\<lambda>t. t" and choice = "\<lambda>t d. t", OF L_def refl refl x ds]
  note entries = w [THEN conjunct2, THEN conjunct1]
  note returns = w [THEN conjunct2, THEN conjunct2, THEN conjunct1]
  have "\<exists>y. forward L x = Inr y"
    using returns by simp
  then obtain y where y: "forward L x = Inr y"
    by blast
  have sh: "shape y = [1, 2, 1]"
    using entries y by simp
  have e: "data y ! ((r * 2 + t) * 1 + k) = entry (response L) [t, k, 0]"
    if "r < 1" "t < 2" "k < 1" for r t k
    using entries y that by simp
  have "data y ! 0 = entry (response L) [0, 0, 0]" "data y ! 1 = entry (response L) [1, 0, 0]"
    using e [of 0 0 0] e [of 0 1 0] by simp_all
  then have "data y ! 0 = Fin 3" "data y ! 1 = Fin 4"
    by (simp_all add: L_def ODST_init_def entry_tabulate)
  then show ?thesis
    using y sh unfolding L_def x_def by blast
qed

section \<open>The frame of the initialisation\<close>







end
